theory Spec2Isabelle
  imports Complex_Main "HOL-Library.Word" "HOL-Library.AList" "HOL-Library.Multiset"
begin

section \<open>Scalar types\<close>

text \<open>
  \<open>uid_t\<close> is \<open>unsigned long long\<close> and \<open>size_t\<close> is taken at 64 bits (LP64): both
  wrap around modulo \<open>2 ^ 64\<close>. A \<open>double\<close> is idealised as a real number: the
  development follows which arithmetic expression the code evaluates, and leaves the
  IEEE rounding of each operation out of the model. \<open>time_t\<close> values are supplied
  from outside (the clock is not modelled).
\<close>

type_synonym uid_t = "64 word"
type_synonym size_t = "64 word"
type_synonym double = real
type_synonym time_t = int

section \<open>Products\<close>

text \<open>
  The data members of the base class \<open>Product\<close>. The member \<open>id\<close> is written
  \<open>id_m\<close> (and \<open>Clothing::size\<close> below \<open>size_m\<close>), the plain names being taken.
\<close>

record Product_members =
  id_m :: uid_t
  name :: string
  price :: double
  sku :: string

text \<open>
  A product object with its dynamic type. \<open>Product\<close> itself has no pure virtual
  member, so a plain base-class object exists as well.
\<close>

datatype Product =
    Product Product_members
  | Electronics Product_members "32 word"
  | Clothing Product_members string bool
  | Grocery Product_members string

fun base :: "Product \<Rightarrow> Product_members" where
  "base (Product b) = b"
| "base (Electronics b warranty_months) = b"
| "base (Clothing b size_m on_clearance) = b"
| "base (Grocery b expiry_date) = b"

definition getId :: "Product \<Rightarrow> uid_t" where
  "getId p = id_m (base p)"

definition getBasePrice :: "Product \<Rightarrow> double" where
  "getBasePrice p = price (base p)"

text \<open>\<open>Electronics::applyDiscount\<close>: a flat 10 percent off.\<close>

definition Electronics_applyDiscount :: "double \<Rightarrow> double" where
  "Electronics_applyDiscount pr = pr * 0.90"

text \<open>\<open>Clothing::applyDiscount\<close>, which reads the member \<open>on_clearance\<close>.\<close>

definition Clothing_applyDiscount :: "bool \<Rightarrow> double \<Rightarrow> double" where
  "Clothing_applyDiscount on_clearance pr =
     (if on_clearance then pr * 0.70 else pr * 0.95)"

text \<open>
  The virtual \<open>finalPrice\<close>: \<open>Electronics\<close> and \<open>Clothing\<close> override it,
  \<open>Grocery\<close> inherits \<open>Product::finalPrice\<close>.
\<close>

fun finalPrice :: "Product \<Rightarrow> double" where
  "finalPrice (Product b) = price b"
| "finalPrice (Electronics b warranty_months) = Electronics_applyDiscount (price b)"
| "finalPrice (Clothing b size_m on_clearance) = Clothing_applyDiscount on_clearance (price b)"
| "finalPrice (Grocery b expiry_date) = price b"

text \<open>
  \<open>dynamic_cast<const IDiscount*>\<close>: the object's \<open>applyDiscount\<close> when its class
  derives from \<open>IDiscount\<close>, and null otherwise.
\<close>

fun dynamic_cast_IDiscount :: "Product \<Rightarrow> (double \<Rightarrow> double) option" where
  "dynamic_cast_IDiscount (Product b) = None"
| "dynamic_cast_IDiscount (Electronics b warranty_months) = Some Electronics_applyDiscount"
| "dynamic_cast_IDiscount (Clothing b size_m on_clearance) = Some (Clothing_applyDiscount on_clearance)"
| "dynamic_cast_IDiscount (Grocery b expiry_date) = None"

section \<open>Shared pointers and the object store\<close>

text \<open>
  A \<open>shared_ptr<Product>\<close> is null or refers to a product object, named by its
  address. The store maps each address to the object living there. A shared pointer
  keeps its object alive and \<open>Product\<close> has no mutating member, so the store is
  fixed while carts and orders change; every operation takes it as the argument \<open>h\<close>.
  Two pointers are the same object exactly when their addresses agree.
\<close>

datatype shared_ptr = nullptr | Ref nat

type_synonym store = "nat \<Rightarrow> Product"

section \<open>ShoppingCart\<close>

text \<open>
  \<open>unordered_map<uid_t, pair<shared_ptr<Product>, size_t>>\<close> as an association
  list, in the order a range-for visits the entries. \<open>find\<close> is \<open>map_of\<close>,
  \<open>erase\<close> is \<open>AList.delete\<close>, assignment through an iterator is
  \<open>AList.update\<close>. \<open>emplace\<close> of a missing key puts the entry in front (the
  standard leaves the place open; with real sums no total depends on it, see
  \<open>total_loop_perm\<close>).
\<close>

type_synonym entry = "uid_t \<times> (shared_ptr \<times> size_t)"
type_synonym item_map = "entry list"
type_synonym ShoppingCart = item_map

definition addProduct :: "store \<Rightarrow> ShoppingCart \<Rightarrow> shared_ptr \<Rightarrow> size_t \<Rightarrow> ShoppingCart" where
  "addProduct h items p qty =
     (case p of
        nullptr \<Rightarrow> items
      | Ref a \<Rightarrow>
          if qty = 0 then items
          else (case map_of items (getId (h a)) of
                  None \<Rightarrow> (getId (h a), (p, qty)) # items
                | Some (p0, qty0) \<Rightarrow> AList.update (getId (h a)) (p0, qty0 + qty) items))"

definition removeProduct :: "ShoppingCart \<Rightarrow> uid_t \<Rightarrow> size_t \<Rightarrow> ShoppingCart" where
  "removeProduct items i qty =
     (case map_of items i of
        None \<Rightarrow> items
      | Some (p0, qty0) \<Rightarrow>
          if qty \<ge> qty0 then AList.delete i items
          else AList.update i (p0, qty0 - qty) items)"

text \<open>\<open>operator+=\<close> and \<open>operator+\<close> (on a copy of the cart) add one unit.\<close>

definition operator_plus_assign :: "store \<Rightarrow> ShoppingCart \<Rightarrow> shared_ptr \<Rightarrow> ShoppingCart" where
  "operator_plus_assign h items p = addProduct h items p 1"

definition operator_plus :: "store \<Rightarrow> ShoppingCart \<Rightarrow> shared_ptr \<Rightarrow> ShoppingCart" where
  "operator_plus h cart p = addProduct h cart p 1"

definition clear :: "ShoppingCart \<Rightarrow> ShoppingCart" where
  "clear items = []"

definition empty_m :: "ShoppingCart \<Rightarrow> bool" where
  "empty_m items = (items = [])"

definition itemsSnapshot :: "ShoppingCart \<Rightarrow> item_map" where
  "itemsSnapshot items = items"

text \<open>The conversion of a \<open>size_t\<close> quantity to \<open>double\<close>.\<close>

definition of_size :: "size_t \<Rightarrow> double" where
  "of_size qty = real (unat qty)"

text \<open>
  The loop of \<open>ShoppingCart::total\<close> (and, word for word, of \<open>Order::total\<close>), with
  the running \<open>sum\<close> as the accumulator \<open>sum_d\<close>. A null pointer in an entry would be
  dereferenced by \<open>p->getBasePrice()\<close>: that run has no value, \<open>None\<close>.
\<close>

fun total_loop :: "store \<Rightarrow> item_map \<Rightarrow> double \<Rightarrow> double option" where
  "total_loop h [] sum_d = Some sum_d"
| "total_loop h ((k, (p, qty)) # kvs) sum_d =
     (case p of
        nullptr \<Rightarrow> None
      | Ref a \<Rightarrow>
          (case dynamic_cast_IDiscount (h a) of
             Some disc \<Rightarrow> total_loop h kvs (sum_d + disc (getBasePrice (h a)) * of_size qty)
           | None \<Rightarrow> total_loop h kvs (sum_d + getBasePrice (h a) * of_size qty)))"

definition total :: "store \<Rightarrow> ShoppingCart \<Rightarrow> double option" where
  "total h items = total_loop h items 0"

text \<open>
  The mutating public members, as commands, and a run of them on a cart. \<open>Plus p\<close>
  stands for \<open>cart = cart + p\<close>, as \<open>main\<close> uses the operator.
\<close>

datatype cart_op =
    AddProduct shared_ptr size_t
  | RemoveProduct uid_t size_t
  | PlusAssign shared_ptr
  | Plus shared_ptr
  | Clear

fun apply_op :: "store \<Rightarrow> ShoppingCart \<Rightarrow> cart_op \<Rightarrow> ShoppingCart" where
  "apply_op h c (AddProduct p qty) = addProduct h c p qty"
| "apply_op h c (RemoveProduct i qty) = removeProduct c i qty"
| "apply_op h c (PlusAssign p) = operator_plus_assign h c p"
| "apply_op h c (Plus p) = operator_plus h c p"
| "apply_op h c Clear = clear c"

definition run_ops :: "store \<Rightarrow> ShoppingCart \<Rightarrow> cart_op list \<Rightarrow> ShoppingCart" where
  "run_ops h c ops = foldl (apply_op h) c ops"

section \<open>Order\<close>

datatype OrderStatus = Created | Paid | Shipped | Cancelled

record Order =
  order_id :: uid_t
  items :: item_map
  status :: OrderStatus
  created_at :: time_t

text \<open>
  The static counter \<open>Order::nextOrderId\<close> is process-wide state: the constructor
  takes its value and returns the new one with the object. \<open>now\<close> is what
  \<open>time(nullptr)\<close> returns.
\<close>

definition nextOrderId_init :: uid_t where
  "nextOrderId_init = 0"

definition Order_ctor :: "uid_t \<Rightarrow> ShoppingCart \<Rightarrow> time_t \<Rightarrow> Order \<times> uid_t" where
  "Order_ctor nextOrderId cart now =
     (let n = nextOrderId + 1
      in (\<lparr>order_id = n, items = itemsSnapshot cart, status = Created, created_at = now\<rparr>, n))"

definition Order_getId :: "Order \<Rightarrow> uid_t" where
  "Order_getId ord = order_id ord"

definition Order_total :: "store \<Rightarrow> Order \<Rightarrow> double option" where
  "Order_total h ord = total_loop h (items ord) 0"

definition pay :: "Order \<Rightarrow> Order" where
  "pay ord = ord\<lparr>status := Paid\<rparr>"

definition ship :: "Order \<Rightarrow> Order" where
  "ship ord = ord\<lparr>status := Shipped\<rparr>"

definition cancel :: "Order \<Rightarrow> Order" where
  "cancel ord = ord\<lparr>status := Cancelled\<rparr>"

text \<open>
  Orders constructed one after the other, each from its own cart and clock reading,
  with the counter threaded through.
\<close>

fun construct_orders :: "uid_t \<Rightarrow> (ShoppingCart \<times> time_t) list \<Rightarrow> Order list \<times> uid_t" where
  "construct_orders nextOrderId [] = ([], nextOrderId)"
| "construct_orders nextOrderId ((cart, now) # rest) =
     (let (ord, n) = Order_ctor nextOrderId cart now;
          (ords, n') = construct_orders n rest
      in (ord # ords, n'))"

text \<open>
  A program state holding a cart and an order built from it, as two objects; a cart
  command changes the cart object.
\<close>

record session =
  cart :: ShoppingCart
  order :: Order

definition place_order :: "uid_t \<Rightarrow> ShoppingCart \<Rightarrow> time_t \<Rightarrow> session" where
  "place_order nextOrderId c now = \<lparr>cart = c, order = fst (Order_ctor nextOrderId c now)\<rparr>"

definition mutate_cart :: "store \<Rightarrow> session \<Rightarrow> cart_op \<Rightarrow> session" where
  "mutate_cart h s op = s\<lparr>cart := apply_op h (cart s) op\<rparr>"

section \<open>What the specification sums\<close>

text \<open>
  One entry's amount as the specification words it: the final price of the entry's
  product (its variant's rule applied to the base price, the base price itself for a
  variant without a rule) times the number of units held. It is written with
  \<open>finalPrice\<close> and the quantity's value, and with none of the pieces the loop of
  \<open>total\<close> is made of (the cast, the rule called through it, the conversion of the
  quantity). A null entry has no product and no amount.
\<close>

fun line_amount :: "store \<Rightarrow> entry \<Rightarrow> double" where
  "line_amount h (k, (nullptr, qty)) = 0"
| "line_amount h (k, (Ref a, qty)) = finalPrice (h a) * real (unat qty)"

text \<open>
  The container's invariant: keys are unique, and every entry holds a non-null
  pointer to a product whose identity is the entry's key.
\<close>

fun entry_ok :: "store \<Rightarrow> entry \<Rightarrow> bool" where
  "entry_ok h (k, (nullptr, qty)) = False"
| "entry_ok h (k, (Ref a, qty)) = (getId (h a) = k)"

definition cart_inv :: "store \<Rightarrow> item_map \<Rightarrow> bool" where
  "cart_inv h c = (distinct (map fst c) \<and> list_all (entry_ok h) c)"

text \<open>An entry whose pointer can be dereferenced.\<close>

definition non_null :: "entry \<Rightarrow> bool" where
  "non_null e = (fst (snd e) \<noteq> nullptr)"

text \<open>The three products and the pointers of the demonstration in \<open>main\<close>.\<close>

definition e1 :: Product where
  "e1 = Electronics \<lparr>id_m = 1, name = ''Smartphone'', price = 699.99, sku = ''ELEC-100''\<rparr> 12"

definition c1 :: Product where
  "c1 = Clothing \<lparr>id_m = 2, name = ''Leather Jacket'', price = 250.00, sku = ''CLOTH-200''\<rparr> ''L'' False"

definition g1 :: Product where
  "g1 = Grocery \<lparr>id_m = 3, name = ''Organic Milk'', price = 3.49, sku = ''GROC-300''\<rparr> ''2025-12-01''"

definition demo_store :: store where
  "demo_store a = (if a = 0 then e1 else if a = 1 then c1 else g1)"

text \<open>
  Whether a command adds without wrapping the held quantity around \<open>2 ^ 64\<close>,
  and whether a whole run does.
\<close>

definition add_fits :: "store \<Rightarrow> ShoppingCart \<Rightarrow> shared_ptr \<Rightarrow> size_t \<Rightarrow> bool" where
  "add_fits h c p qty =
     (case p of
        nullptr \<Rightarrow> True
      | Ref a \<Rightarrow>
          (case map_of c (getId (h a)) of
             None \<Rightarrow> True
           | Some (p0, qty0) \<Rightarrow> unat qty0 + unat qty < 2 ^ 64))"

fun op_fits :: "store \<Rightarrow> ShoppingCart \<Rightarrow> cart_op \<Rightarrow> bool" where
  "op_fits h c (AddProduct p qty) = add_fits h c p qty"
| "op_fits h c (RemoveProduct i qty) = True"
| "op_fits h c (PlusAssign p) = add_fits h c p 1"
| "op_fits h c (Plus p) = add_fits h c p 1"
| "op_fits h c Clear = True"

fun no_wrap :: "store \<Rightarrow> ShoppingCart \<Rightarrow> cart_op list \<Rightarrow> bool" where
  "no_wrap h c [] = True"
| "no_wrap h c (op # ops) = (op_fits h c op \<and> no_wrap h (apply_op h c op) ops)"

definition qty_pos :: "item_map \<Rightarrow> bool" where
  "qty_pos c = list_all (\<lambda>e. 1 \<le> snd (snd e)) c"

text \<open>
  Three objects with the same identity 7, at addresses 0, 1 and 2; every other
  address holds the grocery of \<open>main\<close>.
\<close>

definition twin_store :: store where
  "twin_store a =
     (if a = 0 then Grocery \<lparr>id_m = 7, name = ''first'', price = 1, sku = ''G-1''\<rparr> ''2025-12-01''
      else if a = 1 then Grocery \<lparr>id_m = 7, name = ''second'', price = 5, sku = ''G-2''\<rparr> ''2025-12-31''
      else if a = 2 then Grocery \<lparr>id_m = 7, name = ''third'', price = 2, sku = ''G-3''\<rparr> ''2026-01-31''
      else g1)"

section \<open>Product prices\<close>

text \<open>
  C5. For every Electronics product constructed with base price \<open>P\<close>, \<open>finalPrice()\<close>
  returns \<open>P * 0.90\<close>, whatever the warranty duration (and the other members) may be.
\<close>

theorem electronics_finalPrice:
  "finalPrice (Electronics \<lparr>id_m = i, name = n, price = P, sku = s\<rparr> warranty_months) = P * 0.90"
  by (simp add: Electronics_applyDiscount_def)

text \<open>
  C6. For every Clothing product constructed with base price \<open>P\<close>, \<open>finalPrice()\<close>
  returns \<open>P * 0.70\<close> when the clearance flag is true and \<open>P * 0.95\<close> when it is
  false.
\<close>

theorem clothing_finalPrice:
  "finalPrice (Clothing \<lparr>id_m = i, name = n, price = P, sku = s\<rparr> size_m True) = P * 0.70 \<and>
   finalPrice (Clothing \<lparr>id_m = i, name = n, price = P, sku = s\<rparr> size_m False) = P * 0.95"
  by (simp add: Clothing_applyDiscount_def)

text \<open>
  C7. For every Grocery product constructed with base price \<open>P\<close>, \<open>finalPrice()\<close>
  returns \<open>P\<close> unchanged: Grocery has no discount capability (the cast to
  \<open>IDiscount\<close> is null), and both totals fall back to the base price for it.
\<close>

theorem grocery_finalPrice:
  "finalPrice (Grocery \<lparr>id_m = i, name = n, price = P, sku = s\<rparr> expiry_date) = P \<and>
   dynamic_cast_IDiscount (Grocery \<lparr>id_m = i, name = n, price = P, sku = s\<rparr> expiry_date) = None \<and>
   total (\<lambda>_. Grocery \<lparr>id_m = i, name = n, price = P, sku = s\<rparr> expiry_date) [(i, (Ref a, q))]
     = Some (P * of_size q) \<and>
   Order_total (\<lambda>_. Grocery \<lparr>id_m = i, name = n, price = P, sku = s\<rparr> expiry_date)
     \<lparr>order_id = oid, items = [(i, (Ref a, q))], status = st, created_at = t\<rparr> = Some (P * of_size q)"
  by (simp add: total_def Order_total_def getBasePrice_def)

section \<open>The container invariant\<close>

lemma list_all_update:
  "list_all P al \<Longrightarrow> P (k, v) \<Longrightarrow> list_all P (AList.update k v al)"
  by (induction al) auto

lemma list_all_delete:
  "list_all P al \<Longrightarrow> list_all P (AList.delete k al)"
  by (simp add: AList.delete_eq list_all_iff)

lemma map_of_entry_ok:
  "list_all (entry_ok h) c \<Longrightarrow> map_of c k = Some (p, q) \<Longrightarrow> entry_ok h (k, (p, q'))"
  apply (drule map_of_SomeD)
  apply (cases p)
  apply (auto simp: list_all_iff)
  done

lemma cart_inv_addProduct: "cart_inv h c \<Longrightarrow> cart_inv h (addProduct h c p q)"
  apply (auto simp: cart_inv_def addProduct_def distinct_update list_all_update map_of_entry_ok map_of_eq_None_iff split: shared_ptr.splits option.splits)
  done

lemma cart_inv_removeProduct: "cart_inv h c \<Longrightarrow> cart_inv h (removeProduct c i q)"
  by (auto simp: cart_inv_def removeProduct_def distinct_update distinct_delete list_all_update list_all_delete map_of_entry_ok split: option.splits)

lemma cart_inv_Nil: "cart_inv h []"
  by (simp add: cart_inv_def)

lemma cart_inv_apply_op: "cart_inv h c \<Longrightarrow> cart_inv h (apply_op h c op)"
  by (cases op) (simp_all add: cart_inv_addProduct cart_inv_removeProduct operator_plus_def operator_plus_assign_def clear_def cart_inv_Nil)

lemma cart_inv_run_ops: "cart_inv h c \<Longrightarrow> cart_inv h (run_ops h c ops)"
  unfolding run_ops_def
  by (induction ops arbitrary: c) (auto simp: cart_inv_apply_op)


section \<open>The total of a cart\<close>

lemma total_loop_eq:
  "total_loop h kvs s =
     (if list_all non_null kvs then Some (s + sum_list (map (line_amount h) kvs)) else None)"
proof (induction kvs arbitrary: s)
  case Nil
  then show ?case by simp
next
  case (Cons e kvs)
  obtain k p q where e: "e = (k, (p, q))" by (cases e) auto
  show ?case
  proof (cases p)
    case nullptr
    then show ?thesis by (simp add: e non_null_def)
  next
    case (Ref a)
    have "(case dynamic_cast_IDiscount (h a) of
             Some disc \<Rightarrow> total_loop h kvs (s + disc (getBasePrice (h a)) * of_size q)
           | None \<Rightarrow> total_loop h kvs (s + getBasePrice (h a) * of_size q))
        = total_loop h kvs (s + finalPrice (h a) * real (unat q))"
      by (cases "h a") (simp_all add: getBasePrice_def of_size_def)
    then show ?thesis
      by (simp add: e Ref Cons.IH non_null_def add.assoc)
  qed
qed

lemma entry_ok_non_null: "entry_ok h e \<Longrightarrow> non_null e"
  by (cases "(h, e)" rule: entry_ok.cases) (simp_all add: non_null_def)

lemma total_loop_sum:
  "list_all (entry_ok h) kvs \<Longrightarrow>
   total_loop h kvs s = Some (s + sum_list (map (line_amount h) kvs))"
  by (auto simp: total_loop_eq list_all_iff intro: entry_ok_non_null)

lemma total_loop_perm:
  assumes "mset kvs = mset kvs'"
  shows "total_loop h kvs s = total_loop h kvs' s"
proof -
  from assms have "set kvs = set kvs'" by (rule mset_eq_setD)
  then have a: "list_all non_null kvs = list_all non_null kvs'"
    by (simp add: list_all_iff)
  from assms have "mset (map (line_amount h) kvs) = mset (map (line_amount h) kvs')"
    by simp
  then have "sum_mset (mset (map (line_amount h) kvs)) = sum_mset (mset (map (line_amount h) kvs'))"
    by simp
  then have b: "sum_list (map (line_amount h) kvs) = sum_list (map (line_amount h) kvs')"
    by (simp only: sum_mset_sum_list)
  show ?thesis by (simp add: total_loop_eq a b)
qed

lemma total_cart_inv:
  assumes "cart_inv h c"
  shows "total h c = Some (\<Sum>e\<in>set c. line_amount h e)"
proof -
  from assms have d: "distinct c" and ok: "list_all (entry_ok h) c"
    by (auto simp: cart_inv_def distinct_map)
  show ?thesis
    by (simp add: total_def total_loop_sum [OF ok] sum_list_distinct_conv_sum_set [OF d])
qed

text \<open>
  C1. For every cart state (every state the public members reach from the empty cart),
  \<open>total()\<close> returns the sum over all held entries of the product's final price
  (its discount rule applied to its base price, or the base price if the product has
  no discount rule) multiplied by that entry's quantity; an empty cart's total is 0.
  The final price is \<open>P * 0.90\<close> for Electronics, \<open>P * 0.70\<close> or \<open>P * 0.95\<close>
  for Clothing and \<open>P\<close> otherwise, by \<open>finalPrice\<close>.
\<close>

theorem cart_total_is_sum:
  "total h [] = Some 0 \<and>
   total h (run_ops h [] ops) = Some (\<Sum>e\<in>set (run_ops h [] ops). line_amount h e)"
proof
  show "total h [] = Some 0" by (simp add: total_def)
  have "cart_inv h (run_ops h [] ops)"
    by (rule cart_inv_run_ops) (rule cart_inv_Nil)
  then show "total h (run_ops h [] ops) = Some (\<Sum>e\<in>set (run_ops h [] ops). line_amount h e)"
    by (rule total_cart_inv)
qed

section \<open>Adding and removing\<close>

text \<open>
  What \<open>addProduct(p, q)\<close> does, case by case. It leaves the cart unchanged when
  \<open>p\<close> is null or \<open>q\<close> is 0. Otherwise, if no entry keyed by \<open>p\<close>'s identity
  exists it inserts the new entry \<open>(p, q)\<close>; if one exists it stores the \<open>size_t\<close>
  sum of the held quantity and \<open>q\<close>, keeping the stored pointer and every other
  entry, and that sum is the held quantity incremented by \<open>q\<close> whenever the two
  numbers add up to less than \<open>2 ^ 64\<close>.
\<close>

lemma addProduct_cases:
  "addProduct h c nullptr q = c \<and>
   addProduct h c p 0 = c \<and>
   (q \<noteq> 0 \<and> map_of c (getId (h a)) = None \<longrightarrow>
      addProduct h c (Ref a) q = (getId (h a), (Ref a, q)) # c \<and>
      map_of (addProduct h c (Ref a) q) = (map_of c)(getId (h a) \<mapsto> (Ref a, q))) \<and>
   (q \<noteq> 0 \<and> map_of c (getId (h a)) = Some (p0, q0) \<longrightarrow>
      map_of (addProduct h c (Ref a) q) = (map_of c)(getId (h a) \<mapsto> (p0, q0 + q)) \<and>
      map fst (addProduct h c (Ref a) q) = map fst c \<and>
      (unat q0 + unat q < 2 ^ 64 \<longrightarrow> unat (q0 + q) = unat q0 + unat q)) \<and>
   (map_of c (getId (h a)) = None \<longrightarrow>
      map_of (addProduct h (addProduct h c (Ref a) 1) (Ref a) 2) (getId (h a)) = Some (Ref a, 3))"
proof (intro conjI impI)
  show "addProduct h c nullptr q = c" by (simp add: addProduct_def)
  show "addProduct h c p 0 = c" by (simp add: addProduct_def split: shared_ptr.splits)
next
  assume "q \<noteq> 0 \<and> map_of c (getId (h a)) = None"
  then show "addProduct h c (Ref a) q = (getId (h a), (Ref a, q)) # c"
    and "map_of (addProduct h c (Ref a) q) = (map_of c)(getId (h a) \<mapsto> (Ref a, q))"
    by (simp_all add: addProduct_def)
next
  assume a: "q \<noteq> 0 \<and> map_of c (getId (h a)) = Some (p0, q0)"
  then show "map_of (addProduct h c (Ref a) q) = (map_of c)(getId (h a) \<mapsto> (p0, q0 + q))"
    by (simp add: addProduct_def update_conv')
  from a have "getId (h a) \<in> fst ` set c"
    by (auto dest: map_of_SomeD intro: rev_image_eqI)
  with a show "map fst (addProduct h c (Ref a) q) = map fst c"
    by (simp add: addProduct_def update_keys)
next
  assume "unat q0 + unat q < 2 ^ 64"
  then have "unat q0 + unat q < 2 ^ LENGTH(64)" by simp
  then show "unat (q0 + q) = unat q0 + unat q"
    by (rule unat_add_lem [THEN iffD1])
next
  assume "map_of c (getId (h a)) = None"
  then show "map_of (addProduct h (addProduct h c (Ref a) 1) (Ref a) 2) (getId (h a)) = Some (Ref a, 3)"
    by (simp add: addProduct_def)
qed

lemma addProduct_cases_example:
  "(2::size_t) \<noteq> 0 \<and> map_of ([]::item_map) (getId (demo_store 0)) = None \<and>
   addProduct demo_store [] (Ref 0) 2 = [(1, (Ref 0, 2))] \<and>
   (3::size_t) \<noteq> 0 \<and> map_of [(1, (Ref 0, 2::size_t))] (getId (demo_store 0)) = Some (Ref 0, 2) \<and>
   map_of (addProduct demo_store [(1, (Ref 0, 2))] (Ref 0) 3) 1 = Some (Ref 0, 5) \<and>
   map_of (addProduct demo_store (addProduct demo_store [] (Ref 0) 1) (Ref 0) 2) 1 = Some (Ref 0, 3)"
  using addProduct_cases [where h = demo_store and c = "[]" and a = 0 and q = 2]
    addProduct_cases [where h = demo_store and c = "[(1, (Ref 0, 2))]" and a = 0 and q = 3
      and ?p0.0 = "Ref 0" and ?q0.0 = 2]
  by (simp add: demo_store_def e1_def getId_def)

text \<open>
  C3 says that \<open>addProduct(p, q)\<close>, when an entry keyed by \<open>p\<close>'s identity exists,
  increments that entry's quantity by \<open>q\<close>. With \<open>2 ^ 64 - 1\<close> units of the
  smartphone held, adding one more unit stores the quantity 0: the \<open>size_t\<close>
  addition wraps around, and the held number is not the old one plus \<open>q\<close>.
\<close>

theorem addProduct_increment_wraps:
  "map_of (addProduct demo_store [] (Ref 0) 18446744073709551615) 1
     = Some (Ref 0, 18446744073709551615) \<and>
   map_of (addProduct demo_store (addProduct demo_store [] (Ref 0) 18446744073709551615) (Ref 0) 1) 1
     = Some (Ref 0, 0) \<and>
   unat (0 :: size_t) \<noteq> unat (18446744073709551615 :: size_t) + unat (1 :: size_t)"
  by (simp add: addProduct_def demo_store_def e1_def getId_def)

text \<open>
  C4. \<open>removeProduct(id, q)\<close> leaves the cart unchanged when no entry keyed by
  \<open>id\<close> exists (it is a total function: nothing is thrown); otherwise, if \<open>q\<close>
  is greater than or equal to the held quantity the entry is deleted, and if \<open>q\<close>
  is less the quantity is decremented by \<open>q\<close>, without wrapping below zero: the
  new quantity is the difference of the numbers and is positive. Removing 5 after
  adding 2 to an empty cart leaves it empty.
\<close>

theorem removeProduct_behaviour:
  "(map_of c i = None \<longrightarrow> removeProduct c i q = c) \<and>
   (map_of c i = Some (p0, q0) \<and> q0 \<le> q \<longrightarrow>
      map_of (removeProduct c i q) = (map_of c)(i := None)) \<and>
   (map_of c i = Some (p0, q0) \<and> q < q0 \<longrightarrow>
      map_of (removeProduct c i q) = (map_of c)(i \<mapsto> (p0, q0 - q)) \<and>
      unat (q0 - q) = unat q0 - unat q \<and> 0 < unat (q0 - q)) \<and>
   empty_m (removeProduct (addProduct h [] (Ref a) 2) (getId (h a)) 5)"
proof (intro conjI impI)
  assume "map_of c i = None"
  then show "removeProduct c i q = c" by (simp add: removeProduct_def)
next
  assume "map_of c i = Some (p0, q0) \<and> q0 \<le> q"
  then show "map_of (removeProduct c i q) = (map_of c)(i := None)"
    by (simp add: removeProduct_def delete_conv')
next
  assume a: "map_of c i = Some (p0, q0) \<and> q < q0"
  then have lt: "q < q0" by (rule conjunct2)
  then have "\<not> q0 \<le> q" by (simp only: not_le)
  with a show "map_of (removeProduct c i q) = (map_of c)(i \<mapsto> (p0, q0 - q))"
    by (simp add: removeProduct_def update_conv')
  from lt have "q \<le> q0" by (rule less_imp_le)
  then show u: "unat (q0 - q) = unat q0 - unat q" by (rule unat_sub)
  from lt have "unat q < unat q0" by (rule unat_mono)
  with u show "0 < unat (q0 - q)" by simp
next
  show "empty_m (removeProduct (addProduct h [] (Ref a) 2) (getId (h a)) 5)"
    by (simp add: addProduct_def removeProduct_def empty_m_def)
qed

theorem removeProduct_behaviour_witness:
  "map_of [(1, (Ref 0, 2::size_t))] (9::uid_t) = None \<and>
   removeProduct [(1, (Ref 0, 2))] 9 1 = [(1, (Ref 0, 2))] \<and>
   map_of [(1, (Ref 0, 2::size_t))] (1::uid_t) = Some (Ref 0, 2) \<and> (2::size_t) \<le> 5 \<and>
   map_of (removeProduct [(1, (Ref 0, 2))] 1 5) 1 = None \<and>
   map_of [(1, (Ref 0, 7::size_t))] (1::uid_t) = Some (Ref 0, 7) \<and> (3::size_t) < 7 \<and>
   map_of (removeProduct [(1, (Ref 0, 7))] 1 3) 1 = Some (Ref 0, 4)"
  using removeProduct_behaviour [where c = "[(1, (Ref 0, 2))]" and i = 9 and q = 1]
    removeProduct_behaviour [where c = "[(1, (Ref 0, 2))]" and i = 1 and q = 5
      and ?p0.0 = "Ref 0" and ?q0.0 = 2]
    removeProduct_behaviour [where c = "[(1, (Ref 0, 7))]" and i = 1 and q = 3
      and ?p0.0 = "Ref 0" and ?q0.0 = 7]
  by simp

section \<open>Orders\<close>

lemma mutate_cart_order: "order (foldl (mutate_cart h) s ops) = order s"
  by (induction ops arbitrary: s) (simp_all add: mutate_cart_def)

lemma mutate_cart_cart: "cart (foldl (mutate_cart h) s ops) = run_ops h (cart s) ops"
  unfolding run_ops_def
  by (induction ops arbitrary: s) (simp_all add: mutate_cart_def)

text \<open>
  C2. For every cart and every sequence of cart mutations performed after an Order has
  been constructed from that cart, the order's item map (the cart's contents at
  construction) and the value returned by \<open>Order::total()\<close> (the cart's total at
  construction) are unchanged by those mutations, as is the whole order object, while
  the cart itself goes through the mutations.
\<close>

theorem order_snapshot_isolated:
  "items (order (foldl (mutate_cart h) (place_order n c now) ops)) = c \<and>
   Order_total h (order (foldl (mutate_cart h) (place_order n c now) ops)) = total h c \<and>
   order (foldl (mutate_cart h) (place_order n c now) ops) = fst (Order_ctor n c now) \<and>
   cart (foldl (mutate_cart h) (place_order n c now) ops) = run_ops h c ops"
  by (simp add: mutate_cart_order mutate_cart_cart place_order_def Order_ctor_def Let_def
      itemsSnapshot_def Order_total_def total_def)

lemma Order_ctor_simps:
  "fst (Order_ctor n c t) = \<lparr>order_id = n + 1, items = c, status = Created, created_at = t\<rparr>"
  "snd (Order_ctor n c t) = n + 1"
  by (simp_all add: Order_ctor_def Let_def itemsSnapshot_def)

lemma construct_orders_Cons:
  "construct_orders n ((c, t) # rest) =
     (fst (Order_ctor n c t) # fst (construct_orders (n + 1) rest),
      snd (construct_orders (n + 1) rest))"
  by (simp add: split_beta Order_ctor_simps)

lemma construct_orders_length: "length (fst (construct_orders n args)) = length args"
proof (induction args arbitrary: n)
  case Nil
  then show ?case by simp
next
  case (Cons x args)
  obtain c t where x: "x = (c, t)" by (cases x)
  show ?case unfolding x construct_orders_Cons by (simp add: Cons.IH)
qed

lemma construct_orders_counter: "snd (construct_orders n args) = n + of_nat (length args)"
proof (induction args arbitrary: n)
  case Nil
  then show ?case by simp
next
  case (Cons x args)
  obtain c t where x: "x = (c, t)" by (cases x)
  show ?case unfolding x construct_orders_Cons by (simp add: Cons.IH)
qed

lemma construct_orders_nth:
  "i < length args \<Longrightarrow> Order_getId (fst (construct_orders n args) ! i) = n + of_nat (Suc i)"
proof (induction args arbitrary: n i)
  case Nil
  then show ?case by simp
next
  case (Cons x args)
  obtain c t where x: "x = (c, t)" by (cases x)
  show ?case
  proof (cases i)
    case 0
    then show ?thesis unfolding x construct_orders_Cons
      by (simp add: Order_ctor_simps Order_getId_def)
  next
    case (Suc j)
    with Cons.prems have "j < length args" by simp
    then have "Order_getId (fst (construct_orders (n + 1) args) ! j) = (n + 1) + of_nat (Suc j)"
      by (rule Cons.IH)
    then show ?thesis unfolding x construct_orders_Cons
      by (simp add: Suc add.assoc)
  qed
qed

lemma unat_of_nat_small: "k < 2 ^ 64 \<Longrightarrow> unat (of_nat k :: uid_t) = k"
  by (simp add: unat_of_nat)

text \<open>
  C8, within the range of the counter. Among the first \<open>2 ^ 64 - 1\<close> orders constructed in one run, the
  n-th order receives identifier n (the counter starts at 0 and is pre-incremented);
  these identifiers are strictly increasing and none is reused.
\<close>

theorem order_ids_sequential:
  assumes "length args < 2 ^ 64"
  shows "(\<forall>i < length args.
            unat (Order_getId (fst (construct_orders nextOrderId_init args) ! i)) = i + 1) \<and>
         sorted_wrt (<) (map Order_getId (fst (construct_orders nextOrderId_init args))) \<and>
         distinct (map Order_getId (fst (construct_orders nextOrderId_init args)))"
proof -
  let ?os = "fst (construct_orders nextOrderId_init args)"
  have nth: "unat (Order_getId (?os ! i)) = i + 1" if "i < length args" for i
  proof -
    from that assms have "Suc i < 2 ^ 64" by simp
    then have "unat (of_nat (Suc i) :: uid_t) = Suc i" by (rule unat_of_nat_small)
    with that show ?thesis
      by (simp add: construct_orders_nth nextOrderId_init_def)
  qed
  have less: "Order_getId (?os ! i) < Order_getId (?os ! j)"
    if "i < j" "j < length args" for i j
  proof -
    from that have "unat (Order_getId (?os ! i)) < unat (Order_getId (?os ! j))"
      by (simp add: nth)
    then show ?thesis by (simp add: word_less_nat_alt)
  qed
  have s: "sorted_wrt (<) (map Order_getId ?os)"
    by (simp add: sorted_wrt_iff_nth_less construct_orders_length less)
  from s have "distinct (map Order_getId ?os)"
    by (simp only: strict_sorted_iff)
  with nth s show ?thesis by simp
qed

theorem order_ids_sequential_witness:
  "length [([], 0), ([], 5 :: time_t)] < (2::nat) ^ 64 \<and>
   map Order_getId (fst (construct_orders nextOrderId_init [([], 0), ([], 5)])) = [1, 2] \<and>
   unat (Order_getId (fst (construct_orders nextOrderId_init [([], 0), ([], 5)]) ! 1)) = 1 + 1 \<and>
   sorted_wrt (<) (map Order_getId (fst (construct_orders nextOrderId_init [([], 0), ([], 5)])))"
  using order_ids_sequential [of "[([], 0), ([], 5)]"]
  by (simp add: Order_ctor_def Order_getId_def nextOrderId_init_def)

text \<open>
  C8 as stated fails once the 64-bit counter wraps: the order number \<open>2 ^ 64\<close>
  receives identifier 0, and the next one receives identifier 1, as the first order
  did.
\<close>

theorem order_ids_wrap:
  "Order_getId (fst (construct_orders nextOrderId_init (replicate (2 ^ 64) ([], 0))) ! (2 ^ 64 - 1)) = 0 \<and>
   Order_getId (fst (construct_orders nextOrderId_init (replicate (2 ^ 64 + 1) ([], 0))) ! (2 ^ 64))
     = Order_getId (fst (construct_orders nextOrderId_init (replicate (2 ^ 64 + 1) ([], 0))) ! 0)"
proof -
  have a: "(2::nat) ^ 64 - 1 < length (replicate (2 ^ 64) (([]::ShoppingCart), (0::time_t)))"
    by (subst length_replicate) simp
  have b: "(2::nat) ^ 64 < length (replicate (2 ^ 64 + 1) (([]::ShoppingCart), (0::time_t)))"
    by (subst length_replicate) simp
  have c: "0 < length (replicate (2 ^ 64 + 1) (([]::ShoppingCart), (0::time_t)))"
    by (subst length_replicate) simp
  have w: "(of_nat (Suc (2 ^ 64 - 1)) :: uid_t) = 0" "(of_nat (Suc (2 ^ 64)) :: uid_t) = 1"
    by simp_all
  show ?thesis
    by (simp only: construct_orders_nth [OF a] construct_orders_nth [OF b]
        construct_orders_nth [OF c] w nextOrderId_init_def add_0) simp
qed

section \<open>Reachable carts\<close>

text \<open>
  Every cart reached from the empty one has unique keys and, in each entry, a non-null
  pointer to a product whose identity is the key (\<open>reachable_cart_inv\<close>); its
  quantities are at least 1 as long as no addition wraps around
  (\<open>qty_pos_run_ops\<close>).
\<close>

lemma reachable_cart_inv: "cart_inv h (run_ops h [] ops)"
  by (rule cart_inv_run_ops) (rule cart_inv_Nil)

lemma qty_pos_addProduct:
  assumes "qty_pos c" "add_fits h c p q"
  shows "qty_pos (addProduct h c p q)"
proof (cases p)
  case nullptr
  with assms show ?thesis by (simp add: addProduct_def)
next
  case (Ref a)
  show ?thesis
  proof (cases "q = 0")
    case True
    with assms Ref show ?thesis by (simp add: addProduct_def)
  next
    case False
    then have q: "1 \<le> q" by (simp add: word_le_nat_alt unat_gt_0 Suc_le_eq)
    show ?thesis
    proof (cases "map_of c (getId (h a))")
      case None
      with assms Ref False q show ?thesis by (simp add: addProduct_def qty_pos_def)
    next
      case (Some v)
      obtain p0 q0 where v: "v = (p0, q0)" by (cases v)
      from assms Ref Some v have "unat q0 + unat q < 2 ^ 64"
        by (simp add: add_fits_def)
      then have "unat q0 + unat q < 2 ^ LENGTH(64)" by simp
      then have "unat (q0 + q) = unat q0 + unat q"
        by (rule unat_add_lem [THEN iffD1])
      moreover from q have "1 \<le> unat q" by (simp add: word_le_nat_alt)
      ultimately have "1 \<le> q0 + q" by (simp add: word_le_nat_alt)
      with assms Ref False Some v show ?thesis
        by (simp add: addProduct_def qty_pos_def list_all_update)
    qed
  qed
qed

lemma qty_pos_removeProduct:
  assumes "qty_pos c"
  shows "qty_pos (removeProduct c i q)"
proof (cases "map_of c i")
  case None
  with assms show ?thesis by (simp add: removeProduct_def)
next
  case (Some v)
  obtain p0 q0 where v: "v = (p0, q0)" by (cases v)
  show ?thesis
  proof (cases "q0 \<le> q")
    case True
    with assms Some v show ?thesis
      by (simp add: removeProduct_def qty_pos_def list_all_delete)
  next
    case False
    then have lt: "q < q0" by (simp only: not_le)
    then have "q \<le> q0" by (rule less_imp_le)
    then have "unat (q0 - q) = unat q0 - unat q" by (rule unat_sub)
    moreover from lt have "unat q < unat q0" by (rule unat_mono)
    ultimately have "1 \<le> q0 - q" by (simp add: word_le_nat_alt)
    with assms Some v False show ?thesis
      by (simp add: removeProduct_def qty_pos_def list_all_update)
  qed
qed

lemma qty_pos_apply_op: "qty_pos c \<Longrightarrow> op_fits h c op \<Longrightarrow> qty_pos (apply_op h c op)"
  by (cases op)
     (simp_all add: qty_pos_addProduct qty_pos_removeProduct operator_plus_def
        operator_plus_assign_def clear_def qty_pos_def [of "[]"])

lemma qty_pos_run_ops: "qty_pos c \<Longrightarrow> no_wrap h c ops \<Longrightarrow> qty_pos (run_ops h c ops)"
  unfolding run_ops_def
  by (induction ops arbitrary: c) (simp_all add: qty_pos_apply_op)

text \<open>
  C9 says that every entry of a reachable cart has quantity at least 1. Adding
  \<open>2 ^ 64 - 1\<close> units and then one more unit of the same product wraps the held
  \<open>size_t\<close> quantity around: the cart then holds an entry with quantity 0.
\<close>

theorem zero_quantity_reachable:
  "run_ops demo_store [] [AddProduct (Ref 0) 18446744073709551615, AddProduct (Ref 0) 1]
     = [(1, (Ref 0, 0))]"
  by (simp add: run_ops_def addProduct_def demo_store_def e1_def getId_def)

section \<open>Two objects with one identity\<close>

text \<open>The total reads the store only at the addresses the entries hold.\<close>

lemma total_loop_store_cong:
  "(\<And>k a q. (k, (Ref a, q)) \<in> set kvs \<Longrightarrow> h' a = h a) \<Longrightarrow>
   total_loop h' kvs s = total_loop h kvs s"
proof (induction kvs arbitrary: s)
  case Nil
  then show ?case by simp
next
  case (Cons e kvs)
  obtain k p q where e: "e = (k, (p, q))" by (cases e) auto
  have rest: "total_loop h' kvs s' = total_loop h kvs s'" for s'
  proof (rule Cons.IH)
    fix k a q assume "(k, (Ref a, q)) \<in> set kvs"
    then have "(k, (Ref a, q)) \<in> set (e # kvs)" by simp
    then show "h' a = h a" by (rule Cons.prems)
  qed
  show ?case
  proof (cases p)
    case nullptr
    then show ?thesis by (simp add: e)
  next
    case (Ref a)
    then have "h' a = h a" by (simp add: Cons.prems [of k a q] e)
    then show ?thesis by (simp add: e Ref rest split: option.splits)
  qed
qed

lemma add_twice_absent:
  assumes "getId (h a1) = k" "getId (h a2) = k" "map_of c k = None" "q1 \<noteq> 0"
  shows "addProduct h (addProduct h c (Ref a1) q1) (Ref a2) q2 = (k, (Ref a1, q1 + q2)) # c"
  using assms by (simp add: addProduct_def)

text \<open>
  C10, for a cart that does not hold the identity yet. For every cart (every state
  reached from the empty cart) that holds no entry for the identity shared by two
  distinct product objects \<open>p1\<close> and \<open>p2\<close>, for \<open>q1\<close> other than 0, and for
  quantities whose sum is less than \<open>2 ^ 64\<close>: after \<open>addProduct(p1, q1)\<close> followed
  by \<open>addProduct(p2, q2)\<close> the cart holds a single entry for that identity, with
  the number \<open>q1 + q2\<close> as quantity and \<open>p1\<close> as stored pointer;
  the cart's total is the same whatever object of that identity \<open>p2\<close> points to, so
  \<open>p2\<close>'s name, price and pricing rule do not influence it.
\<close>

theorem same_identity_first_wins:
  assumes c: "c = run_ops h [] ops"
    and ne: "a1 \<noteq> a2"
    and id1: "getId (h a1) = k"
    and id2: "getId (h a2) = k"
    and absent: "map_of c k = None"
    and q1: "q1 \<noteq> 0"
    and fits: "unat q1 + unat q2 < 2 ^ 64"
  shows "(\<exists>held. map_of (addProduct h (addProduct h c (Ref a1) q1) (Ref a2) q2) k
                   = Some (Ref a1, held) \<and>
                 unat held = unat q1 + unat q2) \<and>
         length (filter (\<lambda>e. fst e = k) (addProduct h (addProduct h c (Ref a1) q1) (Ref a2) q2)) = 1 \<and>
         (\<forall>P'. getId P' = k \<longrightarrow>
            total (h(a2 := P'))
              (addProduct (h(a2 := P')) (addProduct (h(a2 := P')) c (Ref a1) q1) (Ref a2) q2)
            = total h (addProduct h (addProduct h c (Ref a1) q1) (Ref a2) q2))"
proof (intro conjI allI impI)
  let ?r = "addProduct h (addProduct h c (Ref a1) q1) (Ref a2) q2"
  have inv: "cart_inv h c" unfolding c by (rule reachable_cart_inv)
  have r: "?r = (k, (Ref a1, q1 + q2)) # c"
    using id1 id2 absent q1 by (rule add_twice_absent)
  from fits have "unat q1 + unat q2 < 2 ^ LENGTH(64)" by simp
  then have "unat (q1 + q2) = unat q1 + unat q2"
    by (rule unat_add_lem [THEN iffD1])
  then show "\<exists>held. map_of ?r k = Some (Ref a1, held) \<and> unat held = unat q1 + unat q2"
    by (simp add: r)
  from absent have nk: "k \<notin> fst ` set c" by (simp add: map_of_eq_None_iff)
  then have "filter (\<lambda>e. fst e = k) c = []"
    by (auto simp: filter_empty_conv)
  then show "length (filter (\<lambda>e. fst e = k) ?r) = 1" by (simp add: r)
  fix P' assume P': "getId P' = k"
  let ?h = "h(a2 := P')"
  have "getId (?h a1) = k" "getId (?h a2) = k"
    using ne id1 P' by simp_all
  then have r': "addProduct ?h (addProduct ?h c (Ref a1) q1) (Ref a2) q2 = (k, (Ref a1, q1 + q2)) # c"
    using absent q1 by (rule add_twice_absent)
  have "?h a = h a" if "(k', (Ref a, q)) \<in> set ((k, (Ref a1, q1 + q2)) # c)" for k' a q
  proof (cases "(k', (Ref a, q)) \<in> set c")
    case True
    from inv have "\<forall>e\<in>set c. entry_ok h e" by (simp add: cart_inv_def list_all_iff)
    from this True have "entry_ok h (k', (Ref a, q))" by (rule bspec)
    then have "getId (h a) = k'" by simp
    moreover from True nk have "k' \<noteq> k" by force
    ultimately have "a \<noteq> a2" using id2 by auto
    then show ?thesis by simp
  next
    case False
    with that have "a = a1" by simp
    with ne show ?thesis by simp
  qed
  then have "total_loop ?h ((k, (Ref a1, q1 + q2)) # c) 0 = total_loop h ((k, (Ref a1, q1 + q2)) # c) 0"
    by (rule total_loop_store_cong)
  then show "total ?h (addProduct ?h (addProduct ?h c (Ref a1) q1) (Ref a2) q2) = total h ?r"
    by (simp only: r r' total_def)
qed

theorem same_identity_first_wins_witness:
  "[(3, (Ref 3, 4))] = run_ops twin_store [] [AddProduct (Ref 3) 4] \<and> (0::nat) \<noteq> 1 \<and>
   getId (twin_store 0) = 7 \<and> getId (twin_store 1) = 7 \<and>
   map_of [(3, (Ref 3, 4::size_t))] (7::uid_t) = None \<and> (1::size_t) \<noteq> 0 \<and>
   unat (1::size_t) + unat (2::size_t) < 2 ^ 64 \<and>
   map_of (addProduct twin_store (addProduct twin_store [(3, (Ref 3, 4))] (Ref 0) 1) (Ref 1) 2) 7
     = Some (Ref 0, 3) \<and>
   length (filter (\<lambda>e. fst e = 7)
     (addProduct twin_store (addProduct twin_store [(3, (Ref 3, 4))] (Ref 0) 1) (Ref 1) 2)) = 1 \<and>
   getId (Electronics \<lparr>id_m = 7, name = ''other'', price = 1000, sku = ''E-7''\<rparr> 24) = 7 \<and>
   total (twin_store(1 := Electronics \<lparr>id_m = 7, name = ''other'', price = 1000, sku = ''E-7''\<rparr> 24))
     (addProduct (twin_store(1 := Electronics \<lparr>id_m = 7, name = ''other'', price = 1000, sku = ''E-7''\<rparr> 24))
        (addProduct (twin_store(1 := Electronics \<lparr>id_m = 7, name = ''other'', price = 1000, sku = ''E-7''\<rparr> 24))
           [(3, (Ref 3, 4))] (Ref 0) 1) (Ref 1) 2)
     = total twin_store
         (addProduct twin_store (addProduct twin_store [(3, (Ref 3, 4))] (Ref 0) 1) (Ref 1) 2)"
proof -
  have c: "[(3, (Ref 3, 4))] = run_ops twin_store [] [AddProduct (Ref 3) 4]"
    by (simp add: run_ops_def addProduct_def twin_store_def g1_def getId_def)
  have ne: "(0::nat) \<noteq> 1" by simp
  have id1: "getId (twin_store 0) = 7" and id2: "getId (twin_store 1) = 7"
    by (simp_all add: twin_store_def getId_def)
  have absent: "map_of [(3, (Ref 3, 4::size_t))] (7::uid_t) = None" by simp
  have q1: "(1::size_t) \<noteq> 0" by simp
  have fits: "unat (1::size_t) + unat (2::size_t) < 2 ^ 64" by simp
  have P': "getId (Electronics \<lparr>id_m = 7, name = ''other'', price = 1000, sku = ''E-7''\<rparr> 24) = 7"
    by (simp add: getId_def)
  note inst = same_identity_first_wins [OF c ne id1 id2 absent q1 fits]
  from inst have a: "map_of
      (addProduct twin_store (addProduct twin_store [(3, (Ref 3, 4))] (Ref 0) 1) (Ref 1) 2) 7
     = Some (Ref 0, 3)"
    by (simp add: addProduct_def twin_store_def g1_def getId_def)
  from inst have b: "length (filter (\<lambda>e. fst e = 7)
     (addProduct twin_store (addProduct twin_store [(3, (Ref 3, 4))] (Ref 0) 1) (Ref 1) 2)) = 1"
    by simp
  from inst P' have t: "total (twin_store(1 := Electronics \<lparr>id_m = 7, name = ''other'', price = 1000, sku = ''E-7''\<rparr> 24))
     (addProduct (twin_store(1 := Electronics \<lparr>id_m = 7, name = ''other'', price = 1000, sku = ''E-7''\<rparr> 24))
        (addProduct (twin_store(1 := Electronics \<lparr>id_m = 7, name = ''other'', price = 1000, sku = ''E-7''\<rparr> 24))
           [(3, (Ref 3, 4))] (Ref 0) 1) (Ref 1) 2)
     = total twin_store
         (addProduct twin_store (addProduct twin_store [(3, (Ref 3, 4))] (Ref 0) 1) (Ref 1) 2)"
    by blast
  from c ne id1 id2 absent q1 fits P' a b t show ?thesis by blast
qed

text \<open>
  C10 as stated, for every cart and all quantities, fails in two ways. When \<open>q1\<close> is
  0 the first call does nothing, so the entry holds \<open>p2\<close> and the total is made
  of \<open>p2\<close>'s price. When the cart already holds the identity (here after adding 5
  units of a third object), the stored pointer stays that earlier one and the
  quantity is 5 + \<open>q1 + q2\<close>.
\<close>

theorem same_identity_counterexample:
  "map_of (addProduct twin_store (addProduct twin_store [] (Ref 0) 0) (Ref 1) 2) 7
     = Some (Ref 1, 2) \<and>
   map_of (addProduct twin_store (addProduct twin_store [] (Ref 0) 0) (Ref 1) 2) 7
     \<noteq> Some (Ref 0, 0 + 2) \<and>
   total twin_store (addProduct twin_store (addProduct twin_store [] (Ref 0) 0) (Ref 1) 2)
     = Some (getBasePrice (twin_store 1) * 2) \<and>
   map_of (addProduct twin_store
       (addProduct twin_store (addProduct twin_store [] (Ref 2) 5) (Ref 0) 1) (Ref 1) 2) 7
     = Some (Ref 2, 8) \<and>
   map_of (addProduct twin_store
       (addProduct twin_store (addProduct twin_store [] (Ref 2) 5) (Ref 0) 1) (Ref 1) 2) 7
     \<noteq> Some (Ref 0, 1 + 2)"
  by (simp add: addProduct_def twin_store_def getId_def total_def getBasePrice_def of_size_def)

section \<open>The demonstration's cart\<close>

text \<open>
  The cart that \<open>main\<close> builds (one unit of each of the three products) totals
  \<open>699.99 * 0.90 + 250.00 * 0.95 + 3.49\<close>, and so does the order built from it.
\<close>

lemma demo_cart_total:
  "total demo_store (run_ops demo_store [] [PlusAssign (Ref 0), Plus (Ref 1), PlusAssign (Ref 2)])
     = Some 870.981 \<and>
   Order_total demo_store (fst (Order_ctor nextOrderId_init
       (run_ops demo_store [] [PlusAssign (Ref 0), Plus (Ref 1), PlusAssign (Ref 2)]) now))
     = Some 870.981"
  by (simp add: run_ops_def operator_plus_assign_def operator_plus_def addProduct_def
      demo_store_def e1_def c1_def g1_def getId_def getBasePrice_def total_def of_size_def
      Electronics_applyDiscount_def Clothing_applyDiscount_def
      Order_total_def Order_ctor_def Let_def itemsSnapshot_def)

end
